theory Spec2Isabelle
  imports Complex_Main "HOL-Library.Sublist" "HOL-Library.AList" "HOL-Library.Multiset"
begin

section \<open>JavaScript strings\<close>

text \<open>
  A JavaScript string is a sequence of UTF-16 code units; it is modelled as the list of
  their values. \<open>js\<close> embeds an ASCII literal. \<open>String.prototype.toLowerCase\<close> is a
  built-in of the host and appears as the parameter \<open>lc\<close> of every function that calls it.
\<close>

type_synonym jsstring = "nat list"

definition js :: "string \<Rightarrow> jsstring" where
  "js s = map of_char s"

text \<open>\<open>a || b\<close> on strings that may be \<open>null\<close> or \<open>undefined\<close>: the empty string is falsy.\<close>

definition truthy :: "jsstring option \<Rightarrow> bool" where
  "truthy s = (case s of None \<Rightarrow> False | Some t \<Rightarrow> t \<noteq> [])"

text \<open>\<open>s.startsWith(p)\<close>, \<open>s.endsWith(p)\<close> and \<open>s.includes(tok)\<close>: some suffix of \<open>s\<close> starts
  with the token. The name \<open>includes\<close> is reserved, hence \<open>includes_js\<close>.\<close>

fun startsWith :: "jsstring \<Rightarrow> jsstring \<Rightarrow> bool" where
  "startsWith s [] = True"
| "startsWith [] (c # p) = False"
| "startsWith (d # s) (c # p) = (d = c \<and> startsWith s p)"

fun includes_js :: "jsstring \<Rightarrow> jsstring \<Rightarrow> bool" where
  "includes_js [] tok = (tok = [])"
| "includes_js (c # s) tok = (startsWith (c # s) tok \<or> includes_js s tok)"

definition endsWith :: "jsstring \<Rightarrow> jsstring \<Rightarrow> bool" where
  "endsWith s p = startsWith (rev s) (rev p)"

text \<open>\<open>xs.slice(start)\<close>; a negative start counts from the end and is cut off at 0.\<close>

definition slice :: "int \<Rightarrow> 'a list \<Rightarrow> 'a list" where
  "slice start xs =
     (let n = int (length xs);
          k = (if start < 0 then max (n + start) 0 else min start n)
      in drop (nat k) xs)"

section \<open>The conversation context\<close>

text \<open>
  \<open>{ lastIntent, history }\<close>: \<open>lastIntent\<close> is a string or \<open>null\<close>, \<open>history\<close> an array of
  the user's texts or absent. The spread \<open>{ ...context }\<close> keeps every other field, which
  the extensible record does as well.
\<close>

record "context" =
  lastIntent :: "jsstring option"
  history :: "jsstring list option"

text \<open>\<open>updateContext\<close> of SmartChatGPT.js (the learning variant).\<close>

definition updateContext ::
  "'a context_scheme \<Rightarrow> jsstring \<Rightarrow> jsstring option \<Rightarrow> 'a context_scheme" where
  "updateContext ctx userText decidedIntent =
     (let next = ctx\<lparr>lastIntent :=
                   (if truthy decidedIntent then decidedIntent
                    else if truthy (lastIntent ctx) then lastIntent ctx
                    else None)\<rparr>;
          hist = slice (- 2) (case history next of None \<Rightarrow> [] | Some h \<Rightarrow> h)
      in next\<lparr>history := Some (hist @ [userText])\<rparr>)"

text \<open>\<open>updateContext\<close> of the rule-table variant (src/unnamed/part_000).\<close>

definition updateContext_rt ::
  "(jsstring \<Rightarrow> jsstring) \<Rightarrow> 'a context_scheme \<Rightarrow> jsstring \<Rightarrow> 'a context_scheme" where
  "updateContext_rt lc ctx userText =
     (let lower = lc userText;
          next = ctx\<lparr>lastIntent :=
                   (if includes_js lower (js ''help'') then Some (js ''help'')
                    else if includes_js lower (js ''hello'') \<or> includes_js lower (js ''hi'')
                            \<or> includes_js lower (js ''hey'') then Some (js ''greeting'')
                    else if includes_js lower (js ''thanks'') then Some (js ''thanks'')
                    else if includes_js lower (js ''bye'') then Some (js ''bye'')
                    else if includes_js lower (js ''theme'') \<or> includes_js lower (js ''color'')
                         then Some (js ''theme'')
                    else Some (js ''general''))\<rparr>;
          hist = slice (- 2) (case history next of None \<Rightarrow> [] | Some h \<Rightarrow> h)
      in next\<lparr>history := Some (hist @ [userText])\<rparr>)"

text \<open>
  A message exchange (\<open>handleSend\<close>) replaces the context by \<open>updateContext\<close> of it, once.
  A conversation is a list of exchanges: the user's text and, in the learning variant, the
  intent decided for it. The component starts from \<open>{ lastIntent: null, history: [] }\<close>.
\<close>

definition initialContext :: "context" where
  "initialContext = \<lparr>lastIntent = None, history = Some []\<rparr>"

fun exchanges :: "'a context_scheme \<Rightarrow> (jsstring \<times> jsstring option) list \<Rightarrow> 'a context_scheme" where
  "exchanges ctx [] = ctx"
| "exchanges ctx ((userText, topIntent) # rest) =
     exchanges (updateContext ctx userText topIntent) rest"

fun exchanges_rt ::
  "(jsstring \<Rightarrow> jsstring) \<Rightarrow> 'a context_scheme \<Rightarrow> jsstring list \<Rightarrow> 'a context_scheme" where
  "exchanges_rt lc ctx [] = ctx"
| "exchanges_rt lc ctx (userText # rest) = exchanges_rt lc (updateContext_rt lc ctx userText) rest"

definition historyLength :: "'a context_scheme \<Rightarrow> nat" where
  "historyLength ctx = (case history ctx of None \<Rightarrow> 0 | Some h \<Rightarrow> length h)"

text \<open>
  \<open>asciiLower\<close> is \<open>toLowerCase\<close> on ASCII text; it stands for the built-in where a
  concrete input is evaluated.
\<close>

definition asciiLower :: "jsstring \<Rightarrow> jsstring" where
  "asciiLower s = map (\<lambda>c. if 65 \<le> c \<and> c \<le> 90 then c + 32 else c) s"

text \<open>
  White space as \<open>String.prototype.trim\<close> and the regular expression class \<open>\s\<close> see it:
  TAB, LF, VT, FF, CR, SP, NBSP, U+1680, U+2000 to U+200A, U+2028, U+2029, U+202F, U+205F,
  U+3000 and U+FEFF.
\<close>

definition isWhiteSpace :: "nat \<Rightarrow> bool" where
  "isWhiteSpace c =
     (c \<in> set [9, 10, 11, 12, 13, 32, 160, 5760, 8232, 8233, 8239, 8287, 12288, 65279]
      \<or> (8192 \<le> c \<and> c \<le> 8202))"

definition trim :: "jsstring \<Rightarrow> jsstring" where
  "trim s = rev (dropWhile isWhiteSpace (rev (dropWhile isWhiteSpace s)))"

text \<open>
  \<open>text.split(/\s+/)\<close>: the pieces between maximal runs of white space; the empty string
  gives one empty piece, and white space at either end gives an empty piece there. The scan
  keeps the piece read so far and whether it is inside a run of white space.
\<close>

fun split_scan :: "bool \<Rightarrow> jsstring \<Rightarrow> jsstring \<Rightarrow> jsstring list" where
  "split_scan inSep piece [] = [piece]"
| "split_scan inSep piece (c # s) =
     (if isWhiteSpace c then
        (if inSep then split_scan True [] s else piece # split_scan True [] s)
      else split_scan False (piece @ [c]) s)"

definition split_ws :: "jsstring \<Rightarrow> jsstring list" where
  "split_ws s = split_scan False [] s"

text \<open>\<open>.filter(Boolean)\<close> on strings drops the empty ones.\<close>

definition words_of :: "jsstring \<Rightarrow> jsstring list" where
  "words_of text = filter (\<lambda>w. w \<noteq> []) (split_ws text)"

text \<open>\<open>xs.findIndex(p)\<close>: the first index where \<open>p\<close> holds, \<open>-1\<close> when there is none.\<close>

fun findIndex :: "('a \<Rightarrow> bool) \<Rightarrow> 'a list \<Rightarrow> int" where
  "findIndex p [] = - 1"
| "findIndex p (x # xs) =
     (if p x then 0 else (let r = findIndex p xs in if r < 0 then - 1 else r + 1))"

section \<open>Numbers and arrays\<close>

text \<open>
  A JavaScript number is modelled as an exact real or \<open>NaN\<close>: the rounding of IEEE doubles
  and the infinities are left out, \<open>NaN\<close> is kept because the code produces it when it does
  arithmetic on a missing array entry (\<open>undefined\<close>).
\<close>

datatype jsnum = Num real | NaN











section \<open>The tables of the intent classifier (SmartChatGPT.js)\<close>

record intent_def =
  key :: jsstring
  baseBias :: real
  response :: jsstring

definition INTENT_DEFS :: "intent_def list" where
  "INTENT_DEFS =
    [\<lparr>key = js ''greeting'', baseBias = 0.3,
      response = js ''Hi there! '' @ [55357, 56395] @ js '' How can I help you today?''\<rparr>,
     \<lparr>key = js ''smalltalk_status'', baseBias = 0.1,
      response = js ''I'' @ [8217] @ js ''m doing great! How about you?''\<rparr>,
     \<lparr>key = js ''weather'', baseBias = 0.0,
      response = js ''I don'' @ [8217]
        @ js ''t pull live weather, but it looks like a great day to build something cool! ''
        @ [55356, 57124, 65039]\<rparr>,
     \<lparr>key = js ''name'', baseBias = 0.05,
      response = js ''I'' @ [8217] @ js ''m SmartChatGPT '' @ [8212]
        @ js '' a lightweight assistant running entirely in your browser.''\<rparr>,
     \<lparr>key = js ''farewell'', baseBias = 0.2,
      response = js ''Goodbye! '' @ [55357, 56395] @ js '' Have a great day!''\<rparr>,
     \<lparr>key = js ''project_context'', baseBias = 0.1,
      response = js ''We'' @ [8217]
        @ js ''re using an Ocean Professional theme with a modern React UI. What would you like to build?''\<rparr>,
     \<lparr>key = js ''generic_followup'', baseBias = 0.15,
      response = js ''Got it. Would you like a summary, suggestions, or examples to move forward?''\<rparr>]"

record feature_spec =
  name :: jsstring
  tokens :: "jsstring list"
  weight :: real

definition FEATURE_SPECS :: "feature_spec list" where
  "FEATURE_SPECS =
    [\<lparr>name = js ''kw_hello'', tokens = [js ''hello'', js ''hi'', js ''hey'', js ''yo''], weight = 1\<rparr>,
     \<lparr>name = js ''kw_how_are_you'',
      tokens = [js ''how are you'', js ''hows it going'', js ''how r u''], weight = 1\<rparr>,
     \<lparr>name = js ''kw_weather'',
      tokens = [js ''weather'', js ''rain'', js ''sunny'', js ''forecast''], weight = 1\<rparr>,
     \<lparr>name = js ''kw_name'', tokens = [js ''name'', js ''who are you'', js ''what are you''],
      weight = 1\<rparr>,
     \<lparr>name = js ''kw_thanks'',
      tokens = [js ''thanks'', js ''thank you'', js ''thx'', js ''appreciate''], weight = 1\<rparr>,
     \<lparr>name = js ''kw_bye'', tokens = [js ''bye'', js ''goodbye'', js ''see you'', js ''cya''],
      weight = 1\<rparr>,
     \<lparr>name = js ''kw_project'',
      tokens = [js ''project'', js ''build'', js ''tech'', js ''react'', js ''frontend'',
                js ''design'', js ''theme''], weight = 1\<rparr>,
     \<lparr>name = js ''kw_help'', tokens = [js ''help'', js ''assist'', js ''support''], weight = 1\<rparr>,
     \<lparr>name = js ''cue_question'', tokens = [js ''?''], weight = 1\<rparr>,
     \<lparr>name = js ''cue_exclaim'', tokens = [js ''!''], weight = 1\<rparr>,
     \<lparr>name = js ''sent_pos'',
      tokens = [js '':)'', [55357, 56898], [55357, 56842], [55357, 56397], js ''great'',
                js ''awesome''], weight = 1\<rparr>,
     \<lparr>name = js ''sent_neg'',
      tokens = [js '':('', [55357, 56897], [55357, 56852], js ''bad'', js ''terrible''],
      weight = 1\<rparr>,
     \<lparr>name = js ''len_short'', tokens = [], weight = 1\<rparr>,
     \<lparr>name = js ''len_medium'', tokens = [], weight = 1\<rparr>,
     \<lparr>name = js ''len_long'', tokens = [], weight = 1\<rparr>]"



text \<open>
  The weight matrix \<open>{ intentKey: number[featureCount] }\<close> is an object: a map from keys to
  arrays of numbers. A feature vector is a \<open>Float32Array\<close> of numbers; assigning to an
  index outside a typed array does nothing.
\<close>

type_synonym weights = "jsstring \<rightharpoonup> jsnum list"

definition typed_set :: "real list \<Rightarrow> int \<Rightarrow> real \<Rightarrow> real list" where
  "typed_set vec idx v = (if 0 \<le> idx \<and> idx < int (length vec) then vec[nat idx := v] else vec)"


section \<open>Feature extraction, scoring and the online update (SmartChatGPT.js)\<close>

text \<open>
  \<open>extractFeatures\<close>: \<open>(textRaw || '')\<close> is the text itself when the argument is a string.
  The \<open>forEach\<close> over \<open>FEATURE_SPECS\<close> fills the keyword entries, the length bucket is
  set afterwards.
\<close>

definition extractFeatures :: "(jsstring \<Rightarrow> jsstring) \<Rightarrow> jsstring \<Rightarrow> real list" where
  "extractFeatures lc textRaw =
     (let text = trim (lc textRaw);
          words = words_of text;
          vec0 = replicate (length FEATURE_SPECS) (0::real);
          vec = fold (\<lambda>(idx, spec) vec.
                   if startsWith (name spec) (js ''len_'') then vec
                   else let hit = list_ex (\<lambda>tok. includes_js text tok) (tokens spec)
                        in typed_set vec (int idx) (if hit then 1 else 0))
                 (enumerate 0 FEATURE_SPECS) vec0;
          lenShortIdx = findIndex (\<lambda>f. name f = js ''len_short'') FEATURE_SPECS;
          lenMediumIdx = findIndex (\<lambda>f. name f = js ''len_medium'') FEATURE_SPECS;
          lenLongIdx = findIndex (\<lambda>f. name f = js ''len_long'') FEATURE_SPECS;
          wc = length words
      in if wc \<le> 3 \<and> lenShortIdx \<ge> 0 then typed_set vec lenShortIdx 1
         else if wc \<le> 12 \<and> lenMediumIdx \<ge> 0 then typed_set vec lenMediumIdx 1
         else if lenLongIdx \<ge> 0 then typed_set vec lenLongIdx 1
         else vec)"










text \<open>
  \<open>generateResponseForIntent\<close>. \<open>def\<close> (here \<open>defFor\<close>) is the entry of the intent, or
  the one of \<open>generic_followup\<close>; were both missing, \<open>def.response\<close> would raise a
  \<open>TypeError\<close> (\<open>None\<close>). \<open>context.history?.length > 0\<close> is false for an absent history.
\<close>

definition sameTopicSuffix :: jsstring where
  "sameTopicSuffix = js '' By the way, I recall we were on the same topic earlier.''"

definition recentChatSuffix :: jsstring where
  "recentChatSuffix = js '' I remember our recent chat'' @ [8212] @ js ''ready to continue?''"

definition projectFollowup :: jsstring where
  "projectFollowup = js ''Makes sense. Would examples or a quick outline help you proceed?''"

definition defFor :: "jsstring \<Rightarrow> intent_def option" where
  "defFor intentKey =
     (case find (\<lambda>d. key d = intentKey) INTENT_DEFS of
        Some d \<Rightarrow> Some d
      | None \<Rightarrow> find (\<lambda>d. key d = js ''generic_followup'') INTENT_DEFS)"

definition generateResponseForIntent :: "jsstring \<Rightarrow> 'a context_scheme \<Rightarrow> jsstring option" where
  "generateResponseForIntent intentKey ctx =
     (case defFor intentKey of
        None \<Rightarrow> None
      | Some d \<Rightarrow>
          if lastIntent ctx = Some intentKey then Some (response d @ sameTopicSuffix)
          else if intentKey = js ''greeting''
                  \<and> (case history ctx of None \<Rightarrow> False | Some h \<Rightarrow> length h > 0)
               then Some (response d @ recentChatSuffix)
          else if intentKey = js ''generic_followup''
                  \<and> (lastIntent ctx = Some (js ''project_context'')
                      \<or> lastIntent ctx = Some (js ''help''))
               then Some projectFollowup
          else Some (response d))"

text \<open>
  The word count in the spec's words: the number of maximal runs of code units that are not
  white space, counted at the first unit of each run.
\<close>

fun wordCountFrom :: "bool \<Rightarrow> jsstring \<Rightarrow> nat" where
  "wordCountFrom afterSpace [] = 0"
| "wordCountFrom afterSpace (c # s) =
     (if \<not> isWhiteSpace c \<and> afterSpace then 1 else 0) + wordCountFrom (isWhiteSpace c) s"

definition wordCount :: "jsstring \<Rightarrow> nat" where
  "wordCount s = wordCountFrom True s"

section \<open>The rule-table variant (src/unnamed/part_000)\<close>

record intent_rt =
  key_rt :: jsstring
  patterns :: "jsstring list"
  response_rt :: jsstring

definition INTENTS :: "intent_rt list" where
  "INTENTS =
    [\<lparr>key_rt = js ''greeting'', patterns = [js ''hello'', js ''hi'', js ''hey''],
      response_rt = js ''Hi there! '' @ [55357, 56395] @ js '' How can I help you today?''\<rparr>,
     \<lparr>key_rt = js ''help'', patterns = [js ''help'', js ''assist'', js ''support''],
      response_rt = js ''Sure, tell me what you need help with and I can guide you.''\<rparr>,
     \<lparr>key_rt = js ''thanks'', patterns = [js ''thank'', js ''thanks'', js ''thx''],
      response_rt = js ''You'' @ [8217] @ js ''re very welcome! '' @ [55357, 56842]
        @ js '' Anything else I can do?''\<rparr>,
     \<lparr>key_rt = js ''bye'', patterns = [js ''bye'', js ''goodbye'', js ''see you''],
      response_rt = js ''Goodbye! '' @ [55357, 56395] @ js '' Have a great day!''\<rparr>,
     \<lparr>key_rt = js ''theme'', patterns = [js ''theme'', js ''color'', js ''design''],
      response_rt = js ''We'' @ [8217]
        @ js ''re using a modern ocean-inspired style with blue and amber accents for clarity and focus.''\<rparr>]"

definition helpFollowup :: jsstring where
  "helpFollowup = js ''Could you share more specifics? For example: the goal, constraints, or where you''
     @ [8217] @ js ''re stuck.''"

definition questionFallback :: jsstring where
  "questionFallback =
     js ''Great question! I can help you explore possible approaches or explain the concepts involved.''"

definition genericFallback :: jsstring where
  "genericFallback = js ''Got it. Would you like a summary, suggestions, or examples to move forward?''"

text \<open>
  \<open>decideResponse\<close>: the \<open>for\<close> loop over \<open>INTENTS\<close> returns at the first intent one of whose
  patterns occurs in the lower-cased text; \<open>None\<close> means the loop ran to its end.
\<close>

fun intentLoop :: "jsstring \<Rightarrow> 'a context_scheme \<Rightarrow> intent_rt list \<Rightarrow> jsstring option" where
  "intentLoop lower ctx [] = None"
| "intentLoop lower ctx (intent # rest) =
     (if list_ex (\<lambda>p. includes_js lower p) (patterns intent) then
        (if lastIntent ctx = Some (key_rt intent)
         then Some (response_rt intent @ sameTopicSuffix)
         else Some (response_rt intent))
      else intentLoop lower ctx rest)"

definition decideResponse ::
  "(jsstring \<Rightarrow> jsstring) \<Rightarrow> jsstring \<Rightarrow> 'a context_scheme \<Rightarrow> jsstring" where
  "decideResponse lc userText ctx =
     (let lower = lc userText
      in case intentLoop lower ctx INTENTS of
           Some reply \<Rightarrow> reply
         | None \<Rightarrow>
             if lastIntent ctx = Some (js ''help'') then helpFollowup
             else if endsWith lower (js ''?'') then questionFallback
             else genericFallback)"

text \<open>
  The replies the two variants can give, as fixed lists: every canned response, every
  canned response with the same-topic suffix, and the hard-coded variants.
\<close>

definition cannedReplies :: "jsstring list" where
  "cannedReplies =
     map response INTENT_DEFS
     @ map (\<lambda>d. response d @ sameTopicSuffix) INTENT_DEFS
     @ [js ''Hi there! '' @ [55357, 56395] @ js '' How can I help you today?'' @ recentChatSuffix,
        projectFollowup]"

definition cannedReplies_rt :: "jsstring list" where
  "cannedReplies_rt =
     map response_rt INTENTS
     @ map (\<lambda>i. response_rt i @ sameTopicSuffix) INTENTS
     @ [helpFollowup, questionFallback, genericFallback]"

section \<open>The score in the words of the specification\<close>



section \<open>Bounded weights\<close>




section \<open>The typing animation (\<open>typeOutAssistantMessage\<close>, both SmartChatGPT variants)\<close>












section \<open>Persistence (\<open>loadMemory\<close>, SmartChatGPT.js)\<close>

text \<open>
  What \<open>JSON.parse\<close> can return: \<open>null\<close>, a boolean, a number, a string, an array or an
  object with its properties in order. An array carries, besides its elements, the
  properties assigned to it under names that are not indices.
\<close>

datatype jsval =
    JNull
  | JBool bool
  | JNum real
  | JStr jsstring
  | JArr "jsval list" "(jsstring \<times> jsval) list"
  | JObj "(jsstring \<times> jsval) list"

datatype js_error = TypeError | SyntaxError | StorageError

text \<open>
  \<open>v[k]\<close> and \<open>v[k] = x\<close> for a key \<open>k\<close> that is neither an array index nor the name of a
  built-in property, as the intent keys are. Reading a property of \<open>null\<close> raises a
  \<open>TypeError\<close>, reading one of another primitive gives \<open>undefined\<close> (\<open>None\<close>); assigning to
  a property of a primitive raises a \<open>TypeError\<close>, the file being a module and so in strict
  mode.
\<close>

fun getProp :: "jsval \<Rightarrow> jsstring \<Rightarrow> js_error + jsval option" where
  "getProp JNull k = Inl TypeError"
| "getProp (JObj kvs) k = Inr (map_of kvs k)"
| "getProp (JArr es ps) k = Inr (map_of ps k)"
| "getProp _ k = Inr None"

fun setProp :: "jsval \<Rightarrow> jsstring \<Rightarrow> jsval \<Rightarrow> js_error + jsval" where
  "setProp (JObj kvs) k x = Inr (JObj (AList.update k x kvs))"
| "setProp (JArr es ps) k x = Inr (JArr es (AList.update k x ps))"
| "setProp _ k x = Inl TypeError"

text \<open>\<open>Array(n).fill(0)\<close>.\<close>

definition zeroArray :: "nat \<Rightarrow> jsval" where
  "zeroArray n = JArr (replicate n (JNum 0)) []"

text \<open>\<open>createZeroWeights()\<close> as a value of this kind: the object the loop builds from \<open>{}\<close>.\<close>

definition createZeroWeights_val :: jsval where
  "createZeroWeights_val =
     (let size = length FEATURE_SPECS
      in JObj (fold (\<lambda>intent w. AList.update (key intent) (zeroArray size) w) INTENT_DEFS []))"

definition LS_weights :: jsstring where "LS_weights = js ''smartgpt_intent_weights_v1''"
definition LS_stats :: jsstring where "LS_stats = js ''smartgpt_stats_v1''"
definition LS_learnEnabled :: jsstring where "LS_learnEnabled = js ''smartgpt_learning_enabled_v1''"

record memory =
  weights :: jsval
  stats :: jsval
  learningEnabled :: jsval

definition zeroStats :: jsval where
  "zeroStats = JObj [(js ''messages'', JNum 0), (js ''updates'', JNum 0)]"

definition defaultMemory :: memory where
  "defaultMemory =
     \<lparr>weights = createZeroWeights_val, stats = zeroStats, learningEnabled = JBool True\<rparr>"

text \<open>
  \<open>json ? JSON.parse(json) : fallback\<close>. \<open>localStorage.getItem\<close> gives \<open>null\<close> or a string, and
  the empty string is falsy; \<open>JSON.parse\<close> is the parameter \<open>parse\<close>, \<open>None\<close> where it raises
  a \<open>SyntaxError\<close>.
\<close>

definition parseOr ::
  "(jsstring \<Rightarrow> jsval option) \<Rightarrow> jsstring option \<Rightarrow> jsval \<Rightarrow> js_error + jsval" where
  "parseOr parse json fallback =
     (case json of
        None \<Rightarrow> Inr fallback
      | Some s \<Rightarrow>
          if s = [] then Inr fallback
          else (case parse s of None \<Rightarrow> Inl SyntaxError | Some v \<Rightarrow> Inr v))"

text \<open>\<open>!Array.isArray(x) || x.length !== featureCount\<close>, for \<open>x\<close> read from a property.\<close>

fun badShape :: "jsval option \<Rightarrow> nat \<Rightarrow> bool" where
  "badShape (Some (JArr es ps)) featureCount = (length es \<noteq> featureCount)"
| "badShape _ featureCount = True"

text \<open>The validation loop over \<open>INTENT_DEFS\<close>; it stops at the first error raised.\<close>

fun validateLoop :: "nat \<Rightarrow> intent_def list \<Rightarrow> jsval \<Rightarrow> js_error + jsval" where
  "validateLoop featureCount [] w = Inr w"
| "validateLoop featureCount (intent # rest) w =
     (case getProp w (key intent) of
        Inl e \<Rightarrow> Inl e
      | Inr entry \<Rightarrow>
          if badShape entry featureCount then
            (case setProp w (key intent) (zeroArray featureCount) of
               Inl e \<Rightarrow> Inl e
             | Inr w' \<Rightarrow> validateLoop featureCount rest w')
          else validateLoop featureCount rest w)"

text \<open>
  The body of the \<open>try\<close> block, with the store as a function from keys to what \<open>getItem\<close>
  does there (it may raise), and \<open>loadMemory\<close> with its \<open>catch\<close>.
\<close>

definition loadMemory_try ::
  "(jsstring \<Rightarrow> jsval option) \<Rightarrow> (jsstring \<Rightarrow> js_error + jsstring option) \<Rightarrow> js_error + memory" where
  "loadMemory_try parse getItem =
     (case getItem LS_weights of Inl e \<Rightarrow> Inl e | Inr weightsJson \<Rightarrow>
      case getItem LS_stats of Inl e \<Rightarrow> Inl e | Inr statsJson \<Rightarrow>
      case getItem LS_learnEnabled of Inl e \<Rightarrow> Inl e | Inr learnJson \<Rightarrow>
      case parseOr parse weightsJson createZeroWeights_val of Inl e \<Rightarrow> Inl e | Inr w \<Rightarrow>
      case parseOr parse statsJson zeroStats of Inl e \<Rightarrow> Inl e | Inr st \<Rightarrow>
      case parseOr parse learnJson (JBool True) of Inl e \<Rightarrow> Inl e | Inr le \<Rightarrow>
      case validateLoop (length FEATURE_SPECS) INTENT_DEFS w of Inl e \<Rightarrow> Inl e | Inr w' \<Rightarrow>
        Inr \<lparr>weights = w', stats = st, learningEnabled = le\<rparr>)"

definition loadMemory ::
  "(jsstring \<Rightarrow> jsval option) \<Rightarrow> (jsstring \<Rightarrow> js_error + jsstring option) \<Rightarrow> memory" where
  "loadMemory parse getItem =
     (case loadMemory_try parse getItem of Inl e \<Rightarrow> defaultMemory | Inr m \<Rightarrow> m)"

text \<open>An array of exactly fifteen numbers, and a memory all of whose intents have one.\<close>

fun numericArray15 :: "jsval option \<Rightarrow> bool" where
  "numericArray15 (Some (JArr es ps)) =
     (length es = 15 \<and> list_all (\<lambda>e. case e of JNum r \<Rightarrow> True | _ \<Rightarrow> False) es)"
| "numericArray15 _ = False"

definition numericWeights :: "memory \<Rightarrow> bool" where
  "numericWeights m =
     list_all (\<lambda>d. case getProp (weights m) (key d) of
                      Inl e \<Rightarrow> False | Inr entry \<Rightarrow> numericArray15 entry) INTENT_DEFS"

text \<open>
  A stored text and what \<open>JSON.parse\<close> makes of it, for concrete evaluation: the weights
  \<open>{"greeting":[null, ..., null]}\<close> with fifteen \<open>null\<close>s, and nothing else stored.
\<close>

definition nullWeightsJson :: jsstring where
  "nullWeightsJson =
     js ''{'' @ [34] @ js ''greeting'' @ [34]
       @ js '':[null,null,null,null,null,null,null,null,null,null,null,null,null,null,null]}''"

definition parseNullWeights :: "jsstring \<Rightarrow> jsval option" where
  "parseNullWeights s =
     (if s = nullWeightsJson then Some (JObj [(js ''greeting'', JArr (replicate 15 JNull) [])])
      else None)"

definition nullWeightsStore :: "jsstring \<Rightarrow> js_error + jsstring option" where
  "nullWeightsStore k = (if k = LS_weights then Inr (Some nullWeightsJson) else Inr None)"

text \<open>An empty store, and one whose stats are the text \<open>{\<close>, which \<open>JSON.parse\<close> rejects.\<close>

definition emptyStore :: "jsstring \<Rightarrow> js_error + jsstring option" where
  "emptyStore k = Inr None"

definition brokenStatsStore :: "jsstring \<Rightarrow> js_error + jsstring option" where
  "brokenStatsStore k = (if k = LS_stats then Inr (Some (js ''{'')) else Inr None)"

section \<open>The TensorFlow.js variant (src/unnamed/part_001)\<close>

text \<open>
  \<open>Array.from(lower)\<close> splits a string into its code points: a high surrogate followed by a
  low surrogate is one element, every other code unit is an element of its own.
\<close>

fun codePoints :: "jsstring \<Rightarrow> jsstring list" where
  "codePoints [] = []"
| "codePoints [c] = [[c]]"
| "codePoints (c # d # s) =
     (if 55296 \<le> c \<and> c \<le> 56319 \<and> 56320 \<le> d \<and> d \<le> 57343 then [c, d] # codePoints s
      else [c] # codePoints (d # s))"

definition alphabet :: jsstring where
  "alphabet = js ''abcdefghijklmnopqrstuvwxyz ''"

text \<open>\<open>charIndex\<close>: each character of the alphabet, as a string, with its position counted from 1.\<close>

definition charIndex :: "(jsstring \<times> nat) list" where
  "charIndex = map (\<lambda>(i, ch). (ch, i + 1)) (enumerate 0 (codePoints alphabet))"

text \<open>\<open>tokenize\<close>: \<open>charIndex.get(ch) || 0\<close> for each character, and \<open>[0]\<close> for no characters.\<close>

definition tokenize :: "(jsstring \<Rightarrow> jsstring) \<Rightarrow> jsstring \<Rightarrow> nat list" where
  "tokenize lc userText =
     (let lower = lc userText;
          tokens = map (\<lambda>ch. case map_of charIndex ch of None \<Rightarrow> 0 | Some i \<Rightarrow> i)
                     (codePoints lower)
      in if tokens \<noteq> [] then tokens else [0])"

text \<open>
  \<open>generateBotResponse\<close>. \<open>infer\<close> runs the token list through \<open>float32\<close> tensors of the
  TensorFlow.js library (\<open>sum\<close>, \<open>mean\<close>, \<open>add\<close>); the library is not part of the sources,
  and the function appears as a parameter giving the score.
\<close>

definition generateBotResponse ::
  "(jsstring \<Rightarrow> jsstring) \<Rightarrow> (nat list \<Rightarrow> real) \<Rightarrow> jsstring \<Rightarrow> jsstring" where
  "generateBotResponse lc infer userText =
     (let utext = trim userText
      in if utext = [] then js ''I'' @ [39] @ js ''m here whenever you'' @ [39] @ js ''re ready.''
         else
           let tokens = tokenize lc utext;
               score = infer tokens;
               lower = lc utext
           in if includes_js lower (js ''hello'') \<or> includes_js lower (js ''hi'')
              then js ''Hi there! '' @ [240, 376, 8216, 8249]
                     @ js '' What would you like to chat about?''
              else if includes_js lower (js ''help'')
              then js ''Sure! Tell me a bit more about what you need help with.''
              else if includes_js lower (js ''color'') \<or> includes_js lower (js ''theme'')
              then js ''We are using the Ocean Professional theme: blue (#2563EB), amber (#F59E0B), and a clean surface.''
              else if score < 50 then js ''Interesting! Could you elaborate a bit more?''
              else if score < 150
              then js ''Got it. That makes sense. Do you have any follow-up questions?''
              else js ''Thanks for the details! If you want, I can summarize or suggest next steps.'')"

text \<open>
  In the words of the specification: the position of a character in the alphabet, counted
  from 1, and 0 for any other character; the exact sum of the tokens plus their mean.
\<close>

fun alphabetPosition :: "jsstring \<Rightarrow> nat" where
  "alphabetPosition [c] = (if 97 \<le> c \<and> c \<le> 122 then c - 96 else if c = 32 then 27 else 0)"
| "alphabetPosition _ = 0"

definition exactScore :: "nat list \<Rightarrow> real" where
  "exactScore toks = real (sum_list toks) + real (sum_list toks) / real (length toks)"

section \<open>Facts about the context\<close>

lemma length_slice_neg2: "length (slice (- 2) xs) \<le> 2"
  by (simp add: slice_def Let_def)

lemma slice_neg2_short: "length xs \<le> 2 \<Longrightarrow> slice (- 2) xs = xs"
  by (simp add: slice_def Let_def)

lemma history_updateContext:
  "history (updateContext ctx t d) =
     Some (slice (- 2) (case history ctx of None \<Rightarrow> [] | Some h \<Rightarrow> h) @ [t])"
  by (simp add: updateContext_def Let_def)

lemma history_updateContext_rt:
  "history (updateContext_rt lc ctx t) =
     Some (slice (- 2) (case history ctx of None \<Rightarrow> [] | Some h \<Rightarrow> h) @ [t])"
  by (simp add: updateContext_rt_def Let_def)

lemma historyLength_updateContext: "historyLength (updateContext ctx t d) \<le> 3"
  using length_slice_neg2 [of "case history ctx of None \<Rightarrow> [] | Some h \<Rightarrow> h"]
  by (simp add: historyLength_def history_updateContext)

lemma historyLength_updateContext_rt: "historyLength (updateContext_rt lc ctx t) \<le> 3"
  using length_slice_neg2 [of "case history ctx of None \<Rightarrow> [] | Some h \<Rightarrow> h"]
  by (simp add: historyLength_def history_updateContext_rt)

lemma historyLength_exchanges:
  "historyLength ctx \<le> 3 \<Longrightarrow> historyLength (exchanges ctx xs) \<le> 3"
proof (induction xs arbitrary: ctx)
  case Nil
  then show ?case by simp
next
  case (Cons x xs)
  obtain t d where x: "x = (t, d)" by (cases x)
  show ?case
    unfolding x exchanges.simps
    by (rule Cons.IH) (rule historyLength_updateContext)
qed

lemma historyLength_exchanges_rt:
  "historyLength ctx \<le> 3 \<Longrightarrow> historyLength (exchanges_rt lc ctx xs) \<le> 3"
proof (induction xs arbitrary: ctx)
  case Nil
  then show ?case by simp
next
  case (Cons x xs)
  show ?case
    unfolding exchanges_rt.simps
    by (rule Cons.IH) (rule historyLength_updateContext_rt)
qed

text \<open>
  Claim C10. In both variants \<open>updateContext\<close> returns a context whose history is the last
  two entries of the previous history followed by the new user text, so it has at most
  three entries and ends with the new text; and after any number of message exchanges,
  from the component's initial context, the history has at most three entries.
\<close>

theorem updateContext_history_bound:
  "(\<exists>h. history (updateContext ctx t d) = Some h
        \<and> h = slice (- 2) (case history ctx of None \<Rightarrow> [] | Some p \<Rightarrow> p) @ [t]
        \<and> length h \<le> 3 \<and> last h = t)
   \<and> (\<exists>h. history (updateContext_rt lc ctx t) = Some h
        \<and> h = slice (- 2) (case history ctx of None \<Rightarrow> [] | Some p \<Rightarrow> p) @ [t]
        \<and> length h \<le> 3 \<and> last h = t)
   \<and> historyLength (exchanges initialContext xs) \<le> 3
   \<and> historyLength (exchanges_rt lc initialContext ys) \<le> 3
   \<and> (historyLength ctx \<le> 3 \<longrightarrow> historyLength (exchanges ctx xs) \<le> 3
        \<and> historyLength (exchanges_rt lc ctx ys) \<le> 3)"
proof -
  let ?p = "case history ctx of None \<Rightarrow> [] | Some p \<Rightarrow> p"
  have len: "length (slice (- 2) ?p @ [t]) \<le> 3"
    using length_slice_neg2 [of ?p] by simp
  have init: "historyLength initialContext \<le> 3"
    by (simp add: historyLength_def initialContext_def)
  have a: "historyLength (exchanges initialContext xs) \<le> 3"
    by (rule historyLength_exchanges [OF init])
  have b: "historyLength (exchanges_rt lc initialContext ys) \<le> 3"
    by (rule historyLength_exchanges_rt [OF init])
  show ?thesis
    using len a b historyLength_exchanges [of ctx xs] historyLength_exchanges_rt [of ctx lc ys]
    by (simp add: history_updateContext history_updateContext_rt)
qed

theorem updateContext_history_bound_witness:
  "historyLength \<lparr>lastIntent = None, history = Some [js ''one'', js ''two'', js ''three'']\<rparr> \<le> 3
   \<and> history (updateContext
         \<lparr>lastIntent = None, history = Some [js ''one'', js ''two'', js ''three'']\<rparr>
         (js ''four'') (Some (js ''greeting'')))
       = Some [js ''two'', js ''three'', js ''four'']
   \<and> historyLength (exchanges
         \<lparr>lastIntent = None, history = Some [js ''one'', js ''two'', js ''three'']\<rparr>
         [(js ''four'', Some (js ''greeting'')), (js ''five'', None)]) \<le> 3"
proof -
  have h: "historyLength \<lparr>lastIntent = None, history = Some [js ''one'', js ''two'', js ''three'']\<rparr> \<le> 3"
    by (simp add: historyLength_def)
  have s: "slice (- 2) [js ''one'', js ''two'', js ''three''] = [js ''two'', js ''three'']"
    by (simp add: slice_def)
  show ?thesis
    using h updateContext_history_bound
      [of "\<lparr>lastIntent = None, history = Some [js ''one'', js ''two'', js ''three'']\<rparr>"
          "js ''four''" "Some (js ''greeting'')" asciiLower
          "[(js ''four'', Some (js ''greeting'')), (js ''five'', None)]" "[]"]
    by (simp add: s)
qed

section \<open>Feature extraction\<close>

lemma startsWith_prefix: "startsWith s p = prefix p s"
  by (induction s p rule: startsWith.induct) auto

lemma includes_js_sublist: "includes_js s tok = sublist tok s"
proof (induction s)
  case Nil
  then show ?case by simp
next
  case (Cons c s)
  then show ?case
    by (simp add: startsWith_prefix sublist_Cons_right)
qed

lemma count_split_scan:
  "(inSep \<longrightarrow> piece = []) \<Longrightarrow>
   length (filter (\<lambda>w. w \<noteq> []) (split_scan inSep piece s))
     = (if piece = [] then wordCountFrom True s else 1 + wordCountFrom False s)"
proof (induction s arbitrary: inSep piece)
  case Nil
  then show ?case by simp
next
  case (Cons c s)
  show ?case
  proof (cases "isWhiteSpace c")
    case True
    have "length (filter (\<lambda>w. w \<noteq> []) (split_scan True [] s)) = wordCountFrom True s"
      using Cons.IH [of True "[]"] by simp
    with True Cons.prems show ?thesis by auto
  next
    case False
    have "length (filter (\<lambda>w. w \<noteq> []) (split_scan False (piece @ [c]) s))
            = 1 + wordCountFrom False s"
      using Cons.IH [of False "piece @ [c]"] by simp
    with False show ?thesis by simp
  qed
qed

lemma length_words_of: "length (words_of s) = wordCount s"
  using count_split_scan [of False "[]" s]
  by (simp add: words_of_def split_ws_def wordCount_def)

lemma length_FEATURE_SPECS: "length FEATURE_SPECS = 15"
  by (simp add: FEATURE_SPECS_def)

lemma len_index:
  "findIndex (\<lambda>f. name f = js ''len_short'') FEATURE_SPECS = 12"
  "findIndex (\<lambda>f. name f = js ''len_medium'') FEATURE_SPECS = 13"
  "findIndex (\<lambda>f. name f = js ''len_long'') FEATURE_SPECS = 14"
  by (simp_all add: FEATURE_SPECS_def js_def)

lemma len_names:
  "map (\<lambda>spec. startsWith (name spec) (js ''len_'')) FEATURE_SPECS =
     [False, False, False, False, False, False, False, False, False, False, False, False,
      True, True, True]"
  by (simp add: FEATURE_SPECS_def js_def)

lemma typed_set_nat:
  "typed_set vec (int n) v = (if n < length vec then vec[n := v] else vec)"
  by (simp add: typed_set_def)

text \<open>
  The \<open>forEach\<close> pass, for any table: an entry named \<open>len_...\<close> keeps its value, every
  other entry becomes 1 or 0 as some token of it occurs in the text.
\<close>

lemma keyword_pass:
  "length vec = n + length specs \<Longrightarrow>
   fold (\<lambda>(idx, spec) vec.
            if startsWith (name spec) (js ''len_'') then vec
            else let hit = list_ex (\<lambda>tok. includes_js text tok) (tokens spec)
                 in typed_set vec (int idx) (if hit then 1 else 0))
     (enumerate n specs) vec
   = take n vec @
     map (\<lambda>(i, spec). if startsWith (name spec) (js ''len_'') then vec ! i
                        else if list_ex (\<lambda>tok. includes_js text tok) (tokens spec) then 1 else 0)
       (enumerate n specs)"
proof (induction specs arbitrary: n vec)
  case Nil
  then show ?case by simp
next
  case (Cons s ss)
  let ?f = "\<lambda>(idx, spec) vec.
            if startsWith (name spec) (js ''len_'') then vec
            else let hit = list_ex (\<lambda>tok. includes_js text tok) (tokens spec)
                 in typed_set vec (int idx) (if hit then 1 else 0)"
  let ?new = "if list_ex (\<lambda>tok. includes_js text tok) (tokens s) then 1 else 0 :: real"
  let ?g = "\<lambda>vec (i, spec). if startsWith (name spec) (js ''len_'') then vec ! i
                        else if list_ex (\<lambda>tok. includes_js text tok) (tokens spec) then 1 else 0 :: real"
  let ?v = "?f (n, s) vec"
  have n: "n < length vec" using Cons.prems by simp
  have v: "?v = (if startsWith (name s) (js ''len_'') then vec else vec[n := ?new])"
    using n by (simp add: typed_set_nat Let_def)
  have len: "length ?v = Suc n + length ss"
    unfolding v using Cons.prems by simp
  have tk: "take (Suc n) ?v = take n vec @ [?g vec (n, s)]"
    unfolding v using n by (simp add: take_Suc_conv_app_nth)
  have rest: "map (?g ?v) (enumerate (Suc n) ss) = map (?g vec) (enumerate (Suc n) ss)"
    unfolding v by (rule map_cong [OF refl]) (auto simp: in_set_enumerate_eq)
  have "fold ?f (enumerate n (s # ss)) vec = fold ?f (enumerate (Suc n) ss) ?v"
    by simp
  also have "\<dots> = take (Suc n) ?v @ map (?g ?v) (enumerate (Suc n) ss)"
    by (rule Cons.IH [OF len])
  finally show ?case
    unfolding tk rest by simp
qed

lemma len_name_iff:
  assumes "i < 15"
  shows "startsWith (name (FEATURE_SPECS ! i)) (js ''len_'') = (12 \<le> i)"
proof -
  have "startsWith (name (FEATURE_SPECS ! i)) (js ''len_'')
          = map (\<lambda>spec. startsWith (name spec) (js ''len_'')) FEATURE_SPECS ! i"
    using assms by (simp add: length_FEATURE_SPECS)
  also have "\<dots> = (12 \<le> i)"
    unfolding len_names using assms by (auto simp add: nth_Cons' less_Suc_eq numeral_eq_Suc)
  finally show ?thesis .
qed

lemma bucket_names:
  "name (FEATURE_SPECS ! 12) = js ''len_short''"
  "name (FEATURE_SPECS ! 13) = js ''len_medium''"
  "name (FEATURE_SPECS ! 14) = js ''len_long''"
  by (simp_all add: FEATURE_SPECS_def)

lemma keyword_entries:
  "map (\<lambda>(i, spec). if startsWith (name spec) (js ''len_'') then replicate 15 (0::real) ! i
                        else if list_ex (\<lambda>tok. includes_js text tok) (tokens spec) then 1 else 0)
       (enumerate 0 FEATURE_SPECS)
   = map (\<lambda>spec. if list_ex (\<lambda>tok. includes_js text tok) (tokens spec) then 1 else 0)
       (take 12 FEATURE_SPECS) @ [0, 0, 0]"
  by (simp add: FEATURE_SPECS_def js_def split del: if_split)

text \<open>The vector in closed form: twelve keyword entries and the three length buckets.\<close>

lemma extractFeatures_eq:
  "extractFeatures lc s =
     map (\<lambda>spec. if list_ex (\<lambda>tok. includes_js (trim (lc s)) tok) (tokens spec) then 1 else 0)
       (take 12 FEATURE_SPECS)
     @ [if wordCount (trim (lc s)) \<le> 3 then 1 else 0,
        if 3 < wordCount (trim (lc s)) \<and> wordCount (trim (lc s)) \<le> 12 then 1 else 0,
        if 12 < wordCount (trim (lc s)) then 1 else 0]"
proof -
  have kp: "fold (\<lambda>(idx, spec) vec.
            if startsWith (name spec) (js ''len_'') then vec
            else let hit = list_ex (\<lambda>tok. includes_js (trim (lc s)) tok) (tokens spec)
                 in typed_set vec (int idx) (if hit then 1 else 0))
     (enumerate 0 FEATURE_SPECS) (replicate (length FEATURE_SPECS) 0)
     = map (\<lambda>spec. if list_ex (\<lambda>tok. includes_js (trim (lc s)) tok) (tokens spec) then 1 else 0)
       (take 12 FEATURE_SPECS) @ [0, 0, 0]" (is "?fold = ?kw @ _")
    using keyword_pass [of "replicate 15 0" 0 FEATURE_SPECS "trim (lc s)"]
    by (simp only: length_FEATURE_SPECS length_replicate add_0 take_0 append_Nil keyword_entries)
  have lkw: "length ?kw = 12"
    by (simp add: length_FEATURE_SPECS)
  have upd: "typed_set (?kw @ [0, 0, 0]) 12 1 = ?kw @ [1, 0, 0]"
    "typed_set (?kw @ [0, 0, 0]) 13 1 = ?kw @ [0, 1, 0]"
    "typed_set (?kw @ [0, 0, 0]) 14 1 = ?kw @ [0, 0, 1]"
    using lkw by (simp_all add: typed_set_def list_update_append)
  show ?thesis
    unfolding extractFeatures_def Let_def kp [unfolded Let_def] len_index length_words_of
    by (simp add: upd)
qed

lemma extractFeatures_length: "length (extractFeatures lc s) = 15"
  by (simp add: extractFeatures_eq length_FEATURE_SPECS)

lemma extractFeatures_keyword:
  assumes "i < 12"
  shows "extractFeatures lc s ! i =
           (if \<exists>tok \<in> set (tokens (FEATURE_SPECS ! i)). sublist tok (trim (lc s)) then 1 else 0)"
  using assms
  by (simp add: extractFeatures_eq nth_append length_FEATURE_SPECS list_ex_iff
        includes_js_sublist)

lemma extractFeatures_buckets:
  "extractFeatures lc s ! 12 = (if wordCount (trim (lc s)) \<le> 3 then 1 else 0)"
  "extractFeatures lc s ! 13 =
     (if 3 < wordCount (trim (lc s)) \<and> wordCount (trim (lc s)) \<le> 12 then 1 else 0)"
  "extractFeatures lc s ! 14 = (if 12 < wordCount (trim (lc s)) then 1 else 0)"
  by (simp_all add: extractFeatures_eq nth_append length_FEATURE_SPECS)

lemma extractFeatures_binary:
  assumes "i < 15"
  shows "extractFeatures lc s ! i = 0 \<or> extractFeatures lc s ! i = 1"
proof (cases "i < 12")
  case True
  then show ?thesis by (simp add: extractFeatures_keyword)
next
  case False
  with assms have "i = 12 \<or> i = 13 \<or> i = 14" by arith
  then show ?thesis by (auto simp: extractFeatures_buckets)
qed

text \<open>
  Claim C2. For every input string the feature vector has length 15, the length of
  \<open>FEATURE_SPECS\<close>, and every entry is 0 or 1. An entry whose feature is not a length
  feature is 1 exactly when the lower-cased, trimmed input contains one of the feature's
  tokens as a substring. Entries 12, 13 and 14 are the features \<open>len_short\<close>,
  \<open>len_medium\<close> and \<open>len_long\<close>: they are 1 exactly when the white-space separated word
  count (which is what the code computes with \<open>split\<close> and \<open>filter\<close>) is at most 3,
  between 4 and 12, and above 12; exactly one of the three is set, and the empty string has
  word count 0, so a text that is empty once lower-cased sets \<open>len_short\<close>.
\<close>

theorem extractFeatures_spec:
  "length (extractFeatures lc s) = length FEATURE_SPECS
   \<and> length FEATURE_SPECS = 15
   \<and> (\<forall>i < 15. extractFeatures lc s ! i = 0 \<or> extractFeatures lc s ! i = 1)
   \<and> (\<forall>i < 15. \<not> startsWith (name (FEATURE_SPECS ! i)) (js ''len_'') \<longrightarrow>
         (extractFeatures lc s ! i = 1)
           = (\<exists>tok \<in> set (tokens (FEATURE_SPECS ! i)). sublist tok (trim (lc s))))
   \<and> name (FEATURE_SPECS ! 12) = js ''len_short''
   \<and> name (FEATURE_SPECS ! 13) = js ''len_medium''
   \<and> name (FEATURE_SPECS ! 14) = js ''len_long''
   \<and> length (words_of (trim (lc s))) = wordCount (trim (lc s))
   \<and> (extractFeatures lc s ! 12 = 1) = (wordCount (trim (lc s)) \<le> 3)
   \<and> (extractFeatures lc s ! 13 = 1)
        = (4 \<le> wordCount (trim (lc s)) \<and> wordCount (trim (lc s)) \<le> 12)
   \<and> (extractFeatures lc s ! 14 = 1) = (12 < wordCount (trim (lc s)))
   \<and> extractFeatures lc s ! 12 + extractFeatures lc s ! 13 + extractFeatures lc s ! 14 = 1
   \<and> wordCount [] = 0
   \<and> (lc s = [] \<longrightarrow> extractFeatures lc s ! 12 = 1)"
proof -
  have kw: "\<forall>i < 15. \<not> startsWith (name (FEATURE_SPECS ! i)) (js ''len_'') \<longrightarrow>
         (extractFeatures lc s ! i = 1)
           = (\<exists>tok \<in> set (tokens (FEATURE_SPECS ! i)). sublist tok (trim (lc s)))"
  proof (intro allI impI)
    fix i :: nat
    assume i: "i < 15" and nl: "\<not> startsWith (name (FEATURE_SPECS ! i)) (js ''len_'')"
    from nl len_name_iff [OF i] have "i < 12" by simp
    then show "(extractFeatures lc s ! i = 1)
           = (\<exists>tok \<in> set (tokens (FEATURE_SPECS ! i)). sublist tok (trim (lc s)))"
      by (simp add: extractFeatures_keyword)
  qed
  have bin: "\<forall>i < 15. extractFeatures lc s ! i = 0 \<or> extractFeatures lc s ! i = 1"
    using extractFeatures_binary by blast
  have b12: "(extractFeatures lc s ! 12 = 1) = (wordCount (trim (lc s)) \<le> 3)"
    by (simp add: extractFeatures_buckets)
  have b13: "(extractFeatures lc s ! 13 = 1)
        = (4 \<le> wordCount (trim (lc s)) \<and> wordCount (trim (lc s)) \<le> 12)"
    by (auto simp add: extractFeatures_buckets)
  have b14: "(extractFeatures lc s ! 14 = 1) = (12 < wordCount (trim (lc s)))"
    by (simp add: extractFeatures_buckets)
  have one: "extractFeatures lc s ! 12 + extractFeatures lc s ! 13 + extractFeatures lc s ! 14 = 1"
    by (simp add: extractFeatures_buckets)
  have w0: "wordCount [] = 0"
    by (simp add: wordCount_def)
  have e: "lc s = [] \<longrightarrow> extractFeatures lc s ! 12 = 1"
    by (simp add: extractFeatures_buckets trim_def wordCount_def)
  show ?thesis
    using kw bin b12 b13 b14 one w0 e
    by (simp only: extractFeatures_length length_FEATURE_SPECS bucket_names length_words_of
          simp_thms)
qed

theorem extractFeatures_spec_witness:
  "(2::nat) < 15 \<and> \<not> startsWith (name (FEATURE_SPECS ! 2)) (js ''len_'')
   \<and> sublist (js ''rain'') (trim (asciiLower (js '' Will it RAIN today? '')))
   \<and> js ''rain'' \<in> set (tokens (FEATURE_SPECS ! 2))
   \<and> extractFeatures asciiLower (js '' Will it RAIN today? '') ! 2 = 1
   \<and> wordCount (trim (asciiLower (js '' Will it RAIN today? ''))) = 4
   \<and> extractFeatures asciiLower (js '' Will it RAIN today? '') ! 13 = 1
   \<and> extractFeatures asciiLower (js '' Will it RAIN today? '') ! 12 \<noteq> 1
   \<and> asciiLower [] = [] \<and> extractFeatures asciiLower [] ! 12 = 1"
proof -
  have t: "trim (asciiLower (js '' Will it RAIN today? '')) = js ''will it rain today?''"
    by (simp add: trim_def asciiLower_def js_def isWhiteSpace_def)
  have sub: "sublist (js ''rain'') (js ''will it rain today?'')"
    unfolding includes_js_sublist [symmetric] by (simp add: js_def)
  have tok: "js ''rain'' \<in> set (tokens (FEATURE_SPECS ! 2))"
    by (simp add: FEATURE_SPECS_def)
  have wc: "wordCount (js ''will it rain today?'') = 4"
    by (simp add: wordCount_def js_def isWhiteSpace_def)
  have nl: "\<not> startsWith (name (FEATURE_SPECS ! 2)) (js ''len_'')"
    by (simp add: FEATURE_SPECS_def js_def)
  have e: "asciiLower [] = []"
    by (simp add: asciiLower_def)
  from extractFeatures_spec [of asciiLower "[]"] e
  have s: "extractFeatures asciiLower [] ! 12 = 1"
    by blast
  from extractFeatures_spec [of asciiLower "js '' Will it RAIN today? ''"]
  show ?thesis
    unfolding t using sub tok wc nl e s by auto
qed

section \<open>Replies\<close>

lemma endsWith_suffix: "endsWith s p = suffix p s"
  by (simp add: endsWith_def startsWith_prefix suffix_to_prefix)

lemma intentLoop_find:
  "intentLoop lower ctx is =
     (case find (\<lambda>i. \<exists>p \<in> set (patterns i). sublist p lower) is of
        None \<Rightarrow> None
      | Some i \<Rightarrow> Some (if lastIntent ctx = Some (key_rt i)
                        then response_rt i @ sameTopicSuffix else response_rt i))"
  by (induction "is") (simp_all add: list_ex_iff includes_js_sublist)

lemma INTENTS_order:
  "map key_rt INTENTS = [js ''greeting'', js ''help'', js ''thanks'', js ''bye'', js ''theme'']"
  by (simp add: INTENTS_def)

text \<open>
  Claim C5. In the rule-table variant \<open>decideResponse\<close> answers with the response of the
  first intent, in the order greeting, help, thanks, bye, theme of \<open>INTENTS\<close>, one of whose
  patterns is a substring of the lower-cased text, followed by the same-topic suffix when
  \<open>context.lastIntent\<close> is that intent's key. When no intent matches it answers with the
  help follow-up if \<open>context.lastIntent\<close> is \<open>help\<close>, else with the question fallback if
  the lower-cased text ends with a question mark, else with the generic fallback.
\<close>

theorem decideResponse_first_match:
  "map key_rt INTENTS = [js ''greeting'', js ''help'', js ''thanks'', js ''bye'', js ''theme'']
   \<and> decideResponse lc userText ctx =
       (case find (\<lambda>i. \<exists>p \<in> set (patterns i). sublist p (lc userText)) INTENTS of
          Some i \<Rightarrow>
            if lastIntent ctx = Some (key_rt i) then response_rt i @ sameTopicSuffix
            else response_rt i
        | None \<Rightarrow>
            if lastIntent ctx = Some (js ''help'') then helpFollowup
            else if suffix (js ''?'') (lc userText) then questionFallback
            else genericFallback)"
  by (simp add: INTENTS_order decideResponse_def intentLoop_find endsWith_suffix
        split: option.split)

theorem decideResponse_first_match_witness:
  "find (\<lambda>i. \<exists>p \<in> set (patterns i). sublist p (asciiLower (js ''Thanks, bye!''))) INTENTS
     = Some (INTENTS ! 2)
   \<and> decideResponse asciiLower (js ''Thanks, bye!'')
         \<lparr>lastIntent = Some (js ''thanks''), history = None\<rparr>
       = response_rt (INTENTS ! 2) @ sameTopicSuffix"
proof -
  have l: "asciiLower (js ''Thanks, bye!'') = js ''thanks, bye!''"
    by (simp add: asciiLower_def js_def)
  have f: "find (\<lambda>i. \<exists>p \<in> set (patterns i). sublist p (js ''thanks, bye!'')) INTENTS
             = Some (INTENTS ! 2)"
    unfolding includes_js_sublist [symmetric] by (simp add: INTENTS_def js_def)
  show ?thesis
    using decideResponse_first_match
      [of asciiLower "js ''Thanks, bye!''" "\<lparr>lastIntent = Some (js ''thanks''), history = None\<rparr>"]
    unfolding l f by (simp add: INTENTS_def)
qed

lemma defFor_cases:
  "\<exists>d. defFor k = Some d \<and> d \<in> set INTENT_DEFS
       \<and> (key d = k \<or> (k \<notin> key ` set INTENT_DEFS \<and> key d = js ''generic_followup''))"
proof (cases "find (\<lambda>d. key d = k) INTENT_DEFS")
  case None
  then have nk: "k \<notin> key ` set INTENT_DEFS"
    by (auto simp: find_None_iff)
  have g: "find (\<lambda>d. key d = js ''generic_followup'') INTENT_DEFS = Some (INTENT_DEFS ! 6)"
    by (simp add: INTENT_DEFS_def js_def)
  have "INTENT_DEFS ! 6 \<in> set INTENT_DEFS" "key (INTENT_DEFS ! 6) = js ''generic_followup''"
    by (simp_all add: INTENT_DEFS_def)
  with None nk g show ?thesis
    by (simp add: defFor_def)
next
  case (Some d)
  then have "d \<in> set INTENT_DEFS" "key d = k"
    by (auto simp: find_Some_iff)
  with Some show ?thesis
    by (simp add: defFor_def)
qed

lemma defFor_greeting: "defFor (js ''greeting'') = Some (INTENT_DEFS ! 0)"
  by (simp add: defFor_def INTENT_DEFS_def)

lemma greeting_response:
  "response (INTENT_DEFS ! 0) = js ''Hi there! '' @ [55357, 56395] @ js '' How can I help you today?''"
  by (simp add: INTENT_DEFS_def)

lemma intentLoop_canned:
  "intentLoop lower ctx is = Some r \<Longrightarrow>
   r \<in> response_rt ` set is \<union> (\<lambda>i. response_rt i @ sameTopicSuffix) ` set is"
  by (induction "is") (auto split: if_splits)

text \<open>
  Claim C4. For every decided intent key and every context, the reply of
  \<open>generateResponseForIntent\<close> is one of the fixed strings: the canned response of the
  matched entry of the intent table (the entry of \<open>generic_followup\<close> for a key outside the
  table), that response with the same-topic suffix or with the greeting-with-history
  suffix, or the project follow-up; in the rule-table variant the reply of
  \<open>decideResponse\<close> is a canned response, one with the same-topic suffix, or one of the
  three fallbacks. Both lists of replies are constants, so no reply text is computed from
  the user's message; the reply of \<open>generateResponseForIntent\<close> depends on the context only
  through \<open>lastIntent\<close> and through whether the history is empty.
\<close>

theorem replies_are_canned:
  "(\<exists>d r. defFor intentKey = Some d \<and> d \<in> set INTENT_DEFS
        \<and> (key d = intentKey
            \<or> (intentKey \<notin> key ` set INTENT_DEFS \<and> key d = js ''generic_followup''))
        \<and> generateResponseForIntent intentKey ctx = Some r
        \<and> r \<in> {response d, response d @ sameTopicSuffix, response d @ recentChatSuffix,
                projectFollowup}
        \<and> r \<in> set cannedReplies)
   \<and> decideResponse lc userText ctx \<in> set cannedReplies_rt
   \<and> (lastIntent ctx' = lastIntent ctx
        \<and> (history ctx' \<in> {None, Some []}) = (history ctx \<in> {None, Some []})
        \<longrightarrow> generateResponseForIntent intentKey ctx' = generateResponseForIntent intentKey ctx)"
proof -
  obtain d where d: "defFor intentKey = Some d" "d \<in> set INTENT_DEFS"
      "key d = intentKey
         \<or> (intentKey \<notin> key ` set INTENT_DEFS \<and> key d = js ''generic_followup'')"
    using defFor_cases [of intentKey] by blast
  have "\<exists>r. generateResponseForIntent intentKey ctx = Some r"
    by (simp add: generateResponseForIntent_def d(1))
  then obtain r where r: "generateResponseForIntent intentKey ctx = Some r" ..
  have four: "r \<in> {response d, response d @ sameTopicSuffix, response d @ recentChatSuffix,
                projectFollowup}"
    using r by (auto simp: generateResponseForIntent_def d(1) split: if_splits)
  have g: "intentKey = js ''greeting'' \<Longrightarrow> response d
             = js ''Hi there! '' @ [55357, 56395] @ js '' How can I help you today?''"
  proof -
    assume "intentKey = js ''greeting''"
    with d(1) have "d = INTENT_DEFS ! 0"
      by (simp add: defFor_greeting)
    then show ?thesis
      by (simp only: greeting_response)
  qed
  have canned: "r \<in> set cannedReplies"
    using r d(2) g
    by (auto simp: generateResponseForIntent_def d(1) cannedReplies_def split: if_splits)
  have rt: "decideResponse lc userText ctx \<in> set cannedReplies_rt"
  proof (cases "intentLoop (lc userText) ctx INTENTS")
    case None
    then show ?thesis
      by (simp add: decideResponse_def cannedReplies_rt_def)
  next
    case (Some reply)
    from intentLoop_canned [OF Some] Some show ?thesis
      by (auto simp: decideResponse_def cannedReplies_rt_def)
  qed
  have dep: "lastIntent ctx' = lastIntent ctx
        \<and> (history ctx' \<in> {None, Some []}) = (history ctx \<in> {None, Some []})
        \<longrightarrow> generateResponseForIntent intentKey ctx' = generateResponseForIntent intentKey ctx"
    by (cases "history ctx'"; cases "history ctx")
       (auto simp: generateResponseForIntent_def split: option.splits)
  from d r four canned rt dep show ?thesis
    by blast
qed

theorem replies_are_canned_witness:
  "lastIntent \<lparr>lastIntent = None, history = Some [js ''good morning'']\<rparr>
     = lastIntent \<lparr>lastIntent = None, history = Some [js ''hi'', js ''hello again'']\<rparr>
   \<and> (history \<lparr>lastIntent = None, history = Some [js ''good morning'']\<rparr> \<in> {None, Some []})
     = (history \<lparr>lastIntent = None, history = Some [js ''hi'', js ''hello again'']\<rparr>
          \<in> {None, Some []})
   \<and> generateResponseForIntent (js ''greeting'')
         \<lparr>lastIntent = None, history = Some [js ''good morning'']\<rparr>
     = generateResponseForIntent (js ''greeting'')
         \<lparr>lastIntent = None, history = Some [js ''hi'', js ''hello again'']\<rparr>
   \<and> generateResponseForIntent (js ''greeting'')
         \<lparr>lastIntent = None, history = Some [js ''hi'', js ''hello again'']\<rparr>
     = Some (response (INTENT_DEFS ! 0) @ recentChatSuffix)
   \<and> response (INTENT_DEFS ! 0) @ recentChatSuffix \<in> set cannedReplies"
proof -
  have r: "generateResponseForIntent (js ''greeting'')
         \<lparr>lastIntent = None, history = Some [js ''hi'', js ''hello again'']\<rparr>
     = Some (response (INTENT_DEFS ! 0) @ recentChatSuffix)"
    by (simp add: generateResponseForIntent_def defFor_greeting)
  show ?thesis
    using replies_are_canned
      [of "js ''greeting''" "\<lparr>lastIntent = None, history = Some [js ''hi'', js ''hello again'']\<rparr>"
          asciiLower "js ''hi''" "\<lparr>lastIntent = None, history = Some [js ''good morning'']\<rparr>"]
    by (auto simp: r)
qed

section \<open>Scoring\<close>




lemma findIndex_lower: "- 1 \<le> findIndex p xs"
  by (induction xs) (auto simp: Let_def)










lemma length_INTENT_DEFS: "length INTENT_DEFS = 7"
  by (simp add: INTENT_DEFS_def)





section \<open>The online update\<close>



















section \<open>The typing animation\<close>










section \<open>Loading the memory\<close>

lemma badShape_zeroArray: "\<not> badShape (Some (zeroArray n)) n"
  by (simp add: zeroArray_def)

lemma badShape_iff: "\<not> badShape entry n \<longleftrightarrow> (\<exists>es ps. entry = Some (JArr es ps) \<and> length es = n)"
  by (cases "(entry, n)" rule: badShape.cases) auto

text \<open>On an object the loop cannot fail; it replaces exactly the badly shaped entries.\<close>

lemma validateLoop_obj:
  "\<exists>kvs'. validateLoop n ds (JObj kvs) = Inr (JObj kvs')
     \<and> (\<forall>k. map_of kvs' k =
               (if k \<in> key ` set ds \<and> badShape (map_of kvs k) n then Some (zeroArray n)
                else map_of kvs k))"
proof (induction ds arbitrary: kvs)
  case Nil
  then show ?case by simp
next
  case (Cons d ds)
  show ?case
  proof (cases "badShape (map_of kvs (key d)) n")
    case True
    let ?kvs = "AList.update (key d) (zeroArray n) kvs"
    from Cons.IH [of ?kvs] obtain kvs' where
      v: "validateLoop n ds (JObj ?kvs) = Inr (JObj kvs')" and
      m: "\<And>k. map_of kvs' k =
               (if k \<in> key ` set ds \<and> badShape (map_of ?kvs k) n then Some (zeroArray n)
                else map_of ?kvs k)"
      by blast
    have "validateLoop n (d # ds) (JObj kvs) = Inr (JObj kvs')"
      using True v by simp
    moreover have "map_of kvs' k =
               (if k \<in> key ` set (d # ds) \<and> badShape (map_of kvs k) n then Some (zeroArray n)
                else map_of kvs k)" for k
      using True by (auto simp: m update_conv' badShape_zeroArray)
    ultimately show ?thesis by blast
  next
    case False
    from Cons.IH [of kvs] obtain kvs' where
      v: "validateLoop n ds (JObj kvs) = Inr (JObj kvs')" and
      m: "\<And>k. map_of kvs' k =
               (if k \<in> key ` set ds \<and> badShape (map_of kvs k) n then Some (zeroArray n)
                else map_of kvs k)"
      by blast
    have "validateLoop n (d # ds) (JObj kvs) = Inr (JObj kvs')"
      using False v by simp
    moreover have "map_of kvs' k =
               (if k \<in> key ` set (d # ds) \<and> badShape (map_of kvs k) n then Some (zeroArray n)
                else map_of kvs k)" for k
      using False by (auto simp: m)
    ultimately show ?thesis by blast
  qed
qed

lemma validateLoop_arr:
  "\<exists>ps'. validateLoop n ds (JArr es ps) = Inr (JArr es ps')
     \<and> (\<forall>k. map_of ps' k =
               (if k \<in> key ` set ds \<and> badShape (map_of ps k) n then Some (zeroArray n)
                else map_of ps k))"
proof (induction ds arbitrary: ps)
  case Nil
  then show ?case by simp
next
  case (Cons d ds)
  show ?case
  proof (cases "badShape (map_of ps (key d)) n")
    case True
    let ?ps = "AList.update (key d) (zeroArray n) ps"
    from Cons.IH [of ?ps] obtain ps' where
      v: "validateLoop n ds (JArr es ?ps) = Inr (JArr es ps')" and
      m: "\<And>k. map_of ps' k =
               (if k \<in> key ` set ds \<and> badShape (map_of ?ps k) n then Some (zeroArray n)
                else map_of ?ps k)"
      by blast
    have "validateLoop n (d # ds) (JArr es ps) = Inr (JArr es ps')"
      using True v by simp
    moreover have "map_of ps' k =
               (if k \<in> key ` set (d # ds) \<and> badShape (map_of ps k) n then Some (zeroArray n)
                else map_of ps k)" for k
      using True by (auto simp: m update_conv' badShape_zeroArray)
    ultimately show ?thesis by blast
  next
    case False
    from Cons.IH [of ps] obtain ps' where
      v: "validateLoop n ds (JArr es ps) = Inr (JArr es ps')" and
      m: "\<And>k. map_of ps' k =
               (if k \<in> key ` set ds \<and> badShape (map_of ps k) n then Some (zeroArray n)
                else map_of ps k)"
      by blast
    have "validateLoop n (d # ds) (JArr es ps) = Inr (JArr es ps')"
      using False v by simp
    moreover have "map_of ps' k =
               (if k \<in> key ` set (d # ds) \<and> badShape (map_of ps k) n then Some (zeroArray n)
                else map_of ps k)" for k
      using False by (auto simp: m)
    ultimately show ?thesis by blast
  qed
qed

text \<open>Whatever was loaded: if the loop completes, every intent has an array of length \<open>n\<close>.\<close>

lemma validateLoop_shape:
  assumes "validateLoop n ds w = Inr w'" and "d \<in> set ds"
  shows "\<exists>es ps. getProp w' (key d) = Inr (Some (JArr es ps)) \<and> length es = n"
proof -
  have shaped: "\<not> badShape (if badShape entry n then Some (zeroArray n) else entry) n" for entry
    by (simp add: badShape_zeroArray)
  show ?thesis
  proof (cases w)
    case (JObj kvs)
    from validateLoop_obj [of n ds kvs] assms(1) JObj
    have "map_of (case w' of JObj kvs' \<Rightarrow> kvs' | _ \<Rightarrow> []) (key d)
            = (if badShape (map_of kvs (key d)) n then Some (zeroArray n) else map_of kvs (key d))"
      and "\<exists>kvs'. w' = JObj kvs'"
      using assms(2) by auto
    with shaped [of "map_of kvs (key d)"] show ?thesis
      by (auto simp: badShape_iff)
  next
    case (JArr es ps)
    from validateLoop_arr [of n ds es ps] assms(1) JArr
    have "map_of (case w' of JArr es' ps' \<Rightarrow> ps' | _ \<Rightarrow> []) (key d)
            = (if badShape (map_of ps (key d)) n then Some (zeroArray n) else map_of ps (key d))"
      and "\<exists>ps'. w' = JArr es ps'"
      using assms(2) by auto
    with shaped [of "map_of ps (key d)"] show ?thesis
      by (auto simp: badShape_iff)
  next
    case JNull
    with assms show ?thesis by (cases ds) auto
  next
    case (JBool b)
    with assms show ?thesis by (cases ds) auto
  next
    case (JNum r)
    with assms show ?thesis by (cases ds) auto
  next
    case (JStr s)
    with assms show ?thesis by (cases ds) auto
  qed
qed

lemma zero_fill:
  "map_of (fold (\<lambda>intent w. AList.update (key intent) v w) ds kvs) k
     = (if k \<in> key ` set ds then Some v else map_of kvs k)"
  by (induction ds arbitrary: kvs) (auto simp: update_conv')

lemma createZeroWeights_val_entries:
  "getProp createZeroWeights_val k
     = Inr (if k \<in> key ` set INTENT_DEFS then Some (zeroArray 15) else None)"
  by (simp add: createZeroWeights_val_def Let_def zero_fill length_FEATURE_SPECS)

lemma validateLoop_good:
  "\<forall>d \<in> set ds. \<not> badShape (map_of kvs (key d)) n \<Longrightarrow>
   validateLoop n ds (JObj kvs) = Inr (JObj kvs)"
  by (induction ds) auto

lemma validate_zero: "validateLoop 15 INTENT_DEFS createZeroWeights_val = Inr createZeroWeights_val"
  unfolding createZeroWeights_val_def Let_def length_FEATURE_SPECS
  by (rule validateLoop_good) (simp add: zero_fill badShape_zeroArray)

lemma defaultMemory_shape:
  "d \<in> set INTENT_DEFS \<Longrightarrow> getProp (weights defaultMemory) (key d) = Inr (Some (zeroArray 15))"
  by (simp add: defaultMemory_def createZeroWeights_val_entries)

lemma loadMemory_shape:
  assumes "d \<in> set INTENT_DEFS"
  shows "\<exists>es ps. getProp (weights (loadMemory parse getItem)) (key d) = Inr (Some (JArr es ps))
           \<and> length es = 15"
proof (cases "loadMemory_try parse getItem")
  case (Inl e)
  then have "loadMemory parse getItem = defaultMemory"
    by (simp add: loadMemory_def)
  with defaultMemory_shape [OF assms] show ?thesis
    by (simp add: zeroArray_def)
next
  case (Inr m)
  then obtain w where "validateLoop 15 INTENT_DEFS w = Inr (weights m)"
    by (auto simp: loadMemory_try_def length_FEATURE_SPECS split: sum.splits)
  from validateLoop_shape [OF this assms] Inr show ?thesis
    by (simp add: loadMemory_def)
qed

lemma loadMemory_empty:
  assumes "getItem LS_weights \<in> {Inr None, Inr (Some [])}"
    and "getItem LS_stats \<in> {Inr None, Inr (Some [])}"
    and "getItem LS_learnEnabled \<in> {Inr None, Inr (Some [])}"
  shows "loadMemory parse getItem = defaultMemory"
  using assms
  by (auto simp: loadMemory_def loadMemory_try_def parseOr_def validate_zero
        length_FEATURE_SPECS defaultMemory_def)

lemma loadMemory_unparsable:
  assumes "k \<in> {LS_weights, LS_stats, LS_learnEnabled}"
    and "getItem k = Inr (Some s)" and "s \<noteq> []" and "parse s = None"
  shows "loadMemory parse getItem = defaultMemory"
proof -
  have "\<exists>e. loadMemory_try parse getItem = Inl e"
    using assms
    by (auto simp: loadMemory_try_def parseOr_def split: sum.splits option.splits)
  then show ?thesis
    by (auto simp: loadMemory_def)
qed

lemma loadMemory_object:
  assumes "loadMemory_try parse getItem = Inr m"
    and "getItem LS_weights = Inr (Some s)" and "s \<noteq> []" and "parse s = Some (JObj kvs)"
    and "d \<in> set INTENT_DEFS"
  shows "loadMemory parse getItem = m"
    and "getProp (weights m) (key d)
           = Inr (if badShape (map_of kvs (key d)) 15 then Some (zeroArray 15)
                  else map_of kvs (key d))"
proof -
  show "loadMemory parse getItem = m"
    using assms(1) by (simp add: loadMemory_def)
  from assms(1-4) have v: "validateLoop 15 INTENT_DEFS (JObj kvs) = Inr (weights m)"
    by (auto simp: loadMemory_try_def parseOr_def length_FEATURE_SPECS split: sum.splits)
  from validateLoop_obj [of 15 INTENT_DEFS kvs] v assms(5)
  show "getProp (weights m) (key d)
           = Inr (if badShape (map_of kvs (key d)) 15 then Some (zeroArray 15)
                  else map_of kvs (key d))"
    by auto
qed

lemma nullWeights_try:
  "\<exists>m. loadMemory_try parseNullWeights nullWeightsStore = Inr m"
proof -
  have k: "LS_stats \<noteq> LS_weights" "LS_learnEnabled \<noteq> LS_weights"
    by (simp_all add: LS_stats_def LS_learnEnabled_def LS_weights_def js_def)
  have ne: "nullWeightsJson \<noteq> []"
    by (simp add: nullWeightsJson_def js_def)
  obtain kvs' where "validateLoop 15 INTENT_DEFS (JObj [(js ''greeting'', JArr (replicate 15 JNull) [])])
                       = Inr (JObj kvs')"
    using validateLoop_obj [of 15 INTENT_DEFS "[(js ''greeting'', JArr (replicate 15 JNull) [])]"]
    by blast
  then show ?thesis
    using k ne
    by (simp add: loadMemory_try_def nullWeightsStore_def parseOr_def parseNullWeights_def
          length_FEATURE_SPECS)
qed

lemma nullWeights_greeting:
  "getProp (weights (loadMemory parseNullWeights nullWeightsStore)) (js ''greeting'')
     = Inr (Some (JArr (replicate 15 JNull) []))"
proof -
  from nullWeights_try obtain m where m: "loadMemory_try parseNullWeights nullWeightsStore = Inr m" ..
  have g: "INTENT_DEFS ! 0 \<in> set INTENT_DEFS" "key (INTENT_DEFS ! 0) = js ''greeting''"
    by (simp_all add: INTENT_DEFS_def)
  have s: "nullWeightsStore LS_weights = Inr (Some nullWeightsJson)"
    by (simp add: nullWeightsStore_def)
  have ne: "nullWeightsJson \<noteq> []"
    by (simp add: nullWeightsJson_def js_def)
  have p: "parseNullWeights nullWeightsJson
             = Some (JObj [(js ''greeting'', JArr (replicate 15 JNull) [])])"
    by (simp add: parseNullWeights_def)
  from loadMemory_object [OF m s ne p g(1)] show ?thesis
    by (simp add: g(2))
qed

text \<open>
  Claim C7, as stated: every intent key maps to a length-15 numeric array in the result.
  It fails for stored weights whose entry for \<open>greeting\<close> is an array of fifteen \<open>null\<close>s:
  the entry has the right shape, so the loop keeps it, and its elements are not numbers.
\<close>

theorem loadMemory_numeric_counterexample:
  "\<not> numericWeights (loadMemory parseNullWeights nullWeightsStore)"
proof -
  have g: "INTENT_DEFS ! 0 \<in> set INTENT_DEFS" "key (INTENT_DEFS ! 0) = js ''greeting''"
    by (simp_all add: INTENT_DEFS_def)
  have "\<not> numericArray15 (Some (JArr (replicate 15 JNull) []))"
    by (simp add: list_all_iff)
  with nullWeights_greeting g show ?thesis
    unfolding numericWeights_def list_all_iff
    by (auto intro!: bexI [where x = "INTENT_DEFS ! 0"])
qed

text \<open>
  Claim C7, amended. \<open>loadMemory\<close> never throws (anything raised in the \<open>try\<close> block gives
  the defaults) and every intent key maps to an array of length exactly 15 in the result.
  When the store has no stored values, or a stored value fails to parse, the result is the
  default memory: a zero array of length 15 for each of the 7 intents, stats
  \<open>{ messages: 0, updates: 0 }\<close> and \<open>learningEnabled\<close> true. For every loaded weights
  object, an intent entry that is not an array of length exactly 15 is replaced by a zero
  array of length 15, and an entry that is one is kept as it is, whatever its elements are.
\<close>

theorem loadMemory_well_shaped:
  "(\<forall>d \<in> set INTENT_DEFS.
      \<exists>es ps. getProp (weights (loadMemory parse getItem)) (key d) = Inr (Some (JArr es ps))
        \<and> length es = 15)
   \<and> length INTENT_DEFS = 7
   \<and> ((\<exists>e. loadMemory_try parse getItem = Inl e) \<longrightarrow> loadMemory parse getItem = defaultMemory)
   \<and> (getItem LS_weights \<in> {Inr None, Inr (Some [])}
        \<and> getItem LS_stats \<in> {Inr None, Inr (Some [])}
        \<and> getItem LS_learnEnabled \<in> {Inr None, Inr (Some [])}
       \<longrightarrow> loadMemory parse getItem = defaultMemory)
   \<and> ((\<exists>k \<in> {LS_weights, LS_stats, LS_learnEnabled}.
          \<exists>s. getItem k = Inr (Some s) \<and> s \<noteq> [] \<and> parse s = None)
       \<longrightarrow> loadMemory parse getItem = defaultMemory)
   \<and> (\<forall>d \<in> set INTENT_DEFS. getProp (weights defaultMemory) (key d) = Inr (Some (zeroArray 15)))
   \<and> stats defaultMemory = JObj [(js ''messages'', JNum 0), (js ''updates'', JNum 0)]
   \<and> learningEnabled defaultMemory = JBool True
   \<and> (\<forall>m s kvs. loadMemory_try parse getItem = Inr m
         \<and> getItem LS_weights = Inr (Some s) \<and> s \<noteq> [] \<and> parse s = Some (JObj kvs)
        \<longrightarrow> loadMemory parse getItem = m
            \<and> (\<forall>d \<in> set INTENT_DEFS.
                  getProp (weights m) (key d)
                    = Inr (if badShape (map_of kvs (key d)) 15 then Some (zeroArray 15)
                           else map_of kvs (key d))))"
proof -
  have a: "\<forall>d \<in> set INTENT_DEFS.
      \<exists>es ps. getProp (weights (loadMemory parse getItem)) (key d) = Inr (Some (JArr es ps))
        \<and> length es = 15"
    using loadMemory_shape by blast
  have b: "(\<exists>e. loadMemory_try parse getItem = Inl e) \<longrightarrow> loadMemory parse getItem = defaultMemory"
    by (auto simp: loadMemory_def)
  have c: "getItem LS_weights \<in> {Inr None, Inr (Some [])}
        \<and> getItem LS_stats \<in> {Inr None, Inr (Some [])}
        \<and> getItem LS_learnEnabled \<in> {Inr None, Inr (Some [])}
       \<longrightarrow> loadMemory parse getItem = defaultMemory"
    using loadMemory_empty [of getItem parse] by blast
  have d: "(\<exists>k \<in> {LS_weights, LS_stats, LS_learnEnabled}.
          \<exists>s. getItem k = Inr (Some s) \<and> s \<noteq> [] \<and> parse s = None)
       \<longrightarrow> loadMemory parse getItem = defaultMemory"
    using loadMemory_unparsable [of _ getItem _ parse] by blast
  have e: "\<forall>d \<in> set INTENT_DEFS. getProp (weights defaultMemory) (key d) = Inr (Some (zeroArray 15))"
    using defaultMemory_shape by blast
  have f: "stats defaultMemory = JObj [(js ''messages'', JNum 0), (js ''updates'', JNum 0)]"
    "learningEnabled defaultMemory = JBool True"
    by (simp_all add: defaultMemory_def zeroStats_def)
  have g: "\<forall>m s kvs. loadMemory_try parse getItem = Inr m
         \<and> getItem LS_weights = Inr (Some s) \<and> s \<noteq> [] \<and> parse s = Some (JObj kvs)
        \<longrightarrow> loadMemory parse getItem = m
            \<and> (\<forall>d \<in> set INTENT_DEFS.
                  getProp (weights m) (key d)
                    = Inr (if badShape (map_of kvs (key d)) 15 then Some (zeroArray 15)
                           else map_of kvs (key d)))"
  proof (intro allI impI, elim conjE)
    fix m s kvs
    assume t: "loadMemory_try parse getItem = Inr m"
      and i: "getItem LS_weights = Inr (Some s)" "s \<noteq> []" "parse s = Some (JObj kvs)"
    have "loadMemory parse getItem = m"
      using t by (simp add: loadMemory_def)
    moreover have "\<forall>d \<in> set INTENT_DEFS.
                  getProp (weights m) (key d)
                    = Inr (if badShape (map_of kvs (key d)) 15 then Some (zeroArray 15)
                           else map_of kvs (key d))"
      using loadMemory_object(2) [OF t i] by blast
    ultimately show "loadMemory parse getItem = m
            \<and> (\<forall>d \<in> set INTENT_DEFS.
                  getProp (weights m) (key d)
                    = Inr (if badShape (map_of kvs (key d)) 15 then Some (zeroArray 15)
                           else map_of kvs (key d)))" ..
  qed
  from a length_INTENT_DEFS b c d e f g show ?thesis
    by (intro conjI)
qed

theorem loadMemory_well_shaped_witness:
  "loadMemory_try parseNullWeights nullWeightsStore
     = Inr (loadMemory parseNullWeights nullWeightsStore)
   \<and> nullWeightsStore LS_weights = Inr (Some nullWeightsJson)
   \<and> nullWeightsJson \<noteq> []
   \<and> parseNullWeights nullWeightsJson
       = Some (JObj [(js ''greeting'', JArr (replicate 15 JNull) [])])
   \<and> INTENT_DEFS ! 2 \<in> set INTENT_DEFS
   \<and> getProp (weights (loadMemory parseNullWeights nullWeightsStore)) (key (INTENT_DEFS ! 2))
       = Inr (Some (zeroArray 15))
   \<and> getProp (weights (loadMemory parseNullWeights nullWeightsStore)) (key (INTENT_DEFS ! 0))
       = Inr (Some (JArr (replicate 15 JNull) []))
   \<and> emptyStore LS_weights \<in> {Inr None, Inr (Some [])}
   \<and> emptyStore LS_stats \<in> {Inr None, Inr (Some [])}
   \<and> emptyStore LS_learnEnabled \<in> {Inr None, Inr (Some [])}
   \<and> loadMemory parseNullWeights emptyStore = defaultMemory
   \<and> brokenStatsStore LS_stats = Inr (Some (js ''{'')) \<and> js ''{'' \<noteq> []
   \<and> parseNullWeights (js ''{'') = None
   \<and> loadMemory parseNullWeights brokenStatsStore = defaultMemory"
proof -
  from nullWeights_try obtain m where m: "loadMemory_try parseNullWeights nullWeightsStore = Inr m" ..
  then have t: "loadMemory_try parseNullWeights nullWeightsStore
     = Inr (loadMemory parseNullWeights nullWeightsStore)"
    by (simp add: loadMemory_def)
  have s: "nullWeightsStore LS_weights = Inr (Some nullWeightsJson)"
    by (simp add: nullWeightsStore_def)
  have ne: "nullWeightsJson \<noteq> []"
    by (simp add: nullWeightsJson_def js_def)
  have p: "parseNullWeights nullWeightsJson
             = Some (JObj [(js ''greeting'', JArr (replicate 15 JNull) [])])"
    by (simp add: parseNullWeights_def)
  have i: "INTENT_DEFS ! 2 \<in> set INTENT_DEFS" "INTENT_DEFS ! 0 \<in> set INTENT_DEFS"
    "key (INTENT_DEFS ! 2) = js ''weather''" "key (INTENT_DEFS ! 0) = js ''greeting''"
    by (simp_all add: INTENT_DEFS_def)
  have w: "js ''weather'' \<noteq> js ''greeting''"
    by (simp add: js_def)
  have e: "emptyStore LS_weights \<in> {Inr None, Inr (Some [])}"
    "emptyStore LS_stats \<in> {Inr None, Inr (Some [])}"
    "emptyStore LS_learnEnabled \<in> {Inr None, Inr (Some [])}"
    by (simp_all add: emptyStore_def)
  have b: "brokenStatsStore LS_stats = Inr (Some (js ''{''))" "js ''{'' \<noteq> []"
    "parseNullWeights (js ''{'') = None"
    by (simp_all add: brokenStatsStore_def parseNullWeights_def nullWeightsJson_def js_def)
  note th = loadMemory_well_shaped
  from th [of parseNullWeights nullWeightsStore] t s ne p
  have obj: "\<forall>d \<in> set INTENT_DEFS.
                  getProp (weights (loadMemory parseNullWeights nullWeightsStore)) (key d)
                    = Inr (if badShape (map_of [(js ''greeting'', JArr (replicate 15 JNull) [])]
                                          (key d)) 15
                           then Some (zeroArray 15)
                           else map_of [(js ''greeting'', JArr (replicate 15 JNull) [])] (key d))"
    by blast
  from obj i(1) have g2: "getProp (weights (loadMemory parseNullWeights nullWeightsStore))
        (key (INTENT_DEFS ! 2)) = Inr (Some (zeroArray 15))"
    using w by (auto simp: i(3))
  from obj i(2) have g0: "getProp (weights (loadMemory parseNullWeights nullWeightsStore))
        (key (INTENT_DEFS ! 0)) = Inr (Some (JArr (replicate 15 JNull) []))"
    by (auto simp: i(4))
  from th [of parseNullWeights emptyStore] e
  have d1: "loadMemory parseNullWeights emptyStore = defaultMemory"
    by blast
  from th [of parseNullWeights brokenStatsStore] b
  have d2: "loadMemory parseNullWeights brokenStatsStore = defaultMemory"
    by blast
  from t s ne p i(1) g2 g0 e d1 b d2 show ?thesis
    by (intro conjI)
qed

section \<open>The tokenizer of the TensorFlow.js variant\<close>

lemma codePoints_alphabet: "codePoints alphabet = map (\<lambda>c. [c]) alphabet"
  by (simp add: alphabet_def js_def)

lemma charIndex_list:
  "charIndex = map (\<lambda>i. ([97 + i], Suc i)) [0..<26] @ [([32], 27)]"
  by (simp add: charIndex_def codePoints_alphabet alphabet_def js_def upt_rec)

lemma letters_lookup:
  "map_of (map (\<lambda>i. ([97 + i], Suc i)) [0..<n]) [c]
     = (if 97 \<le> c \<and> c < 97 + n then Some (c - 96) else None)"
  by (induction n) (auto simp: map_add_def)

text \<open>A letter has its position in the alphabet, the space has 27, nothing else is listed.\<close>

lemma charIndex_single:
  "map_of charIndex [c] =
     (if 97 \<le> c \<and> c \<le> 122 then Some (c - 96) else if c = 32 then Some 27 else None)"
  unfolding charIndex_list by (auto simp: map_add_def letters_lookup)

lemma charIndex_pair: "map_of charIndex (c # d # s) = None"
proof -
  have "c # d # s \<notin> fst ` set charIndex"
    unfolding charIndex_list by auto
  then show ?thesis
    by (simp only: map_of_eq_None_iff [symmetric])
qed

lemma tokenize_empty: "lc userText = [] \<Longrightarrow> tokenize lc userText = [0]"
  by (simp add: tokenize_def)

lemma tokenize_nonempty: "tokenize lc userText \<noteq> []"
  by (simp add: tokenize_def Let_def)

lemma charIndex_position:
  "(case map_of charIndex ch of None \<Rightarrow> 0 | Some i \<Rightarrow> i) = alphabetPosition ch"
proof (cases ch)
  case Nil
  have "[] \<notin> fst ` set charIndex"
    unfolding charIndex_list by auto
  then have "map_of charIndex [] = None"
    by (simp only: map_of_eq_None_iff [symmetric])
  with Nil show ?thesis by simp
next
  case (Cons c rest)
  show ?thesis
  proof (cases rest)
    case Nil
    with Cons show ?thesis by (simp add: charIndex_single)
  next
    case (Cons d s)
    with \<open>ch = c # rest\<close> show ?thesis by (simp add: charIndex_pair)
  qed
qed

lemma codePoints_Nil: "codePoints s = [] \<longleftrightarrow> s = []"
  by (cases s rule: codePoints.cases) auto

text \<open>
  \<open>tokenize\<close> maps each character of the lower-cased text to its position in the alphabet
  (0 for any other character) and gives \<open>[0]\<close> for the empty text.
\<close>

lemma tokenize_positions:
  "tokenize lc userText =
     (if lc userText = [] then [0] else map alphabetPosition (codePoints (lc userText)))"
  by (simp add: tokenize_def Let_def charIndex_position codePoints_Nil)

text \<open>
  The reply is chosen by the keyword rules and then by comparing the score with 50 and 150.
\<close>

lemma generateBotResponse_rules:
  assumes "trim userText \<noteq> []"
    and "\<not> sublist (js ''hello'') (lc (trim userText))" "\<not> sublist (js ''hi'') (lc (trim userText))"
    and "\<not> sublist (js ''help'') (lc (trim userText))"
    and "\<not> sublist (js ''color'') (lc (trim userText))" "\<not> sublist (js ''theme'') (lc (trim userText))"
  shows "generateBotResponse lc infer userText =
           (if infer (tokenize lc (trim userText)) < 50
              then js ''Interesting! Could you elaborate a bit more?''
            else if infer (tokenize lc (trim userText)) < 150
              then js ''Got it. That makes sense. Do you have any follow-up questions?''
            else js ''Thanks for the details! If you want, I can summarize or suggest next steps.'')"
  using assms by (simp add: generateBotResponse_def Let_def includes_js_sublist)

text \<open>
  The exact sum plus mean of the tokens of \<open>aab\<close> is 16/3, which no binary floating-point
  number equals, whatever its precision: the score that the \<open>float32\<close> tensors deliver for
  this text is not the exact value.
\<close>

lemma exactScore_aab: "exactScore (tokenize asciiLower (js ''aab'')) = 16 / 3"
  by (simp add: tokenize_positions asciiLower_def js_def exactScore_def)

lemma three_not_dvd_power2: "\<not> (3::int) dvd 2 ^ k"
proof (induction k)
  case 0
  then show ?case by simp
next
  case (Suc k)
  have "coprime (3::int) 2" by simp
  then have "(3::int) dvd 2 * 2 ^ k \<longleftrightarrow> (3::int) dvd 2 ^ k"
    by (rule coprime_dvd_mult_right_iff)
  with Suc show ?case by simp
qed

lemma exactScore_aab_not_binary:
  "exactScore (tokenize asciiLower (js ''aab'')) \<noteq> real_of_int m / 2 ^ e"
proof
  assume "exactScore (tokenize asciiLower (js ''aab'')) = real_of_int m / 2 ^ e"
  then have "16 * (2::real) ^ e = 3 * real_of_int m"
    by (simp add: exactScore_aab field_simps)
  then have "real_of_int (16 * 2 ^ e) = real_of_int (3 * m)"
    by simp
  then have eq: "(16::int) * 2 ^ e = 3 * m"
    by (simp only: of_int_eq_iff)
  have "(2::int) ^ (e + 4) = 3 * m"
    using eq by (simp add: power_add)
  then have "(3::int) dvd 2 ^ (e + 4)"
    by simp
  with three_not_dvd_power2 show False
    by blast
qed


end
